theory Spec2Isabelle
  imports Main "HOL-Library.AList"
begin

section \<open>The simulated filesystem of nios-scriptable-wrapper\<close>

text \<open>
  A shallow embedding of \<^verbatim>\<open>FilesystemWrapper.ts\<close>: the classes \<^verbatim>\<open>FakeFile\<close>,
  \<^verbatim>\<open>FakeDirectory\<close> and \<^verbatim>\<open>FilesystemWrapper\<close>.

  \<^item> A JavaScript string is a \<open>string\<close>; \<^verbatim>\<open>===\<close> on strings is equality of values.
  \<^item> \<^verbatim>\<open>throw new Error(msg)\<close> is the value \<open>Error msg\<close>, returned on the left of a sum.
  \<^item> A \<^verbatim>\<open>FakeFile\<close> is a record; its methods take the object's state and return the
    new one. The directory code reads only the two read-only fields of a file, so a
    directory holds its files as values.
  \<^item> A \<^verbatim>\<open>FakeDirectory\<close> is an object with identity: \<^verbatim>\<open>addSubdirectory\<close> looks the argument
    up with \<^verbatim>\<open>indexOf\<close> (reference equality) and returns a reference. Directories therefore
    live in a store, a directory value is an address, and a method takes the store and
    returns the new store next to its result or its error, so that the state left behind
    by a throwing call can be observed.
  \<^item> The lists of a directory are values held by its object. The code stores the very
    array its constructor is given; an array that two directories share, or that the
    caller goes on changing, is outside the model.
\<close>

subsection \<open>Errors\<close>

text \<open>
  The code throws the plain \<^verbatim>\<open>Error\<close> everywhere; the kinds of error differ by their
  message only. The duplicate-entry error is the \<^verbatim>\<open>Error\<close> with one of the two
  \<^verbatim>\<open>already exists\<close> messages below, the invalid-path error the one with \<^verbatim>\<open>Invalid path.\<close>
\<close>

datatype error = Error string

subsection \<open>FakeFile\<close>

record FakeFile =
  name :: string
  extension :: string
  tags :: "string list"
  extattrs :: "(string \<times> string) list"
  uti :: string
  bookmarks :: "string list"

text \<open>
  \<^verbatim>\<open>extattrs\<close> is a JavaScript \<^verbatim>\<open>Map\<close>, which keeps its keys in insertion order: an
  association list in which \<^verbatim>\<open>set\<close> replaces the value of a present key in place and
  appends an absent one (\<open>AList.update\<close>), and \<^verbatim>\<open>get\<close> is \<open>map_of\<close>, \<open>None\<close> being
  \<^verbatim>\<open>undefined\<close>.
\<close>

definition new_FakeFile :: "string \<Rightarrow> string \<Rightarrow> FakeFile" where
  "new_FakeFile n e =
     \<lparr>name = n, extension = e, tags = [], extattrs = [], uti = [], bookmarks = []\<rparr>"

definition addTag :: "FakeFile \<Rightarrow> string \<Rightarrow> FakeFile" where
  "addTag this tag =
     (if tag \<notin> set (tags this) then this\<lparr>tags := tags this @ [tag]\<rparr> else this)"

definition removeTag :: "FakeFile \<Rightarrow> string \<Rightarrow> FakeFile" where
  "removeTag this tag =
     (if tag \<in> set (tags this) then this\<lparr>tags := remove1 tag (tags this)\<rparr> else this)"

definition allTags :: "FakeFile \<Rightarrow> string list" where
  "allTags this = tags this"

text \<open>
  \<^verbatim>\<open>if (attr) return attr; return null;\<close> tests the truthiness of \<^verbatim>\<open>attr\<close>: \<^verbatim>\<open>undefined\<close> and
  the empty string are both falsy. \<open>None\<close> is the \<^verbatim>\<open>null\<close> that is returned.
\<close>

definition readExtendedAttribute :: "FakeFile \<Rightarrow> string \<Rightarrow> string option" where
  "readExtendedAttribute this n =
     (case map_of (extattrs this) n of
        None \<Rightarrow> None
      | Some attr \<Rightarrow> (if attr \<noteq> [] then Some attr else None))"

definition allExtendedAttributes :: "FakeFile \<Rightarrow> string list" where
  "allExtendedAttributes this = map fst (extattrs this)"

definition writeExtendedAttribute :: "FakeFile \<Rightarrow> string \<Rightarrow> string \<Rightarrow> FakeFile" where
  "writeExtendedAttribute this v n = this\<lparr>extattrs := AList.update n v (extattrs this)\<rparr>"

definition getUTI :: "FakeFile \<Rightarrow> string" where
  "getUTI this = uti this"

subsection \<open>The store of directories\<close>

type_synonym addr = nat

record FakeDirectory =
  bookmarks :: "string list"
  files :: "FakeFile list"
  subdirectories :: "addr list"
  name :: string

text \<open>
  The store gives every address its object; \<open>fresh\<close> is the next address that \<^verbatim>\<open>new\<close>
  hands out, every address below it being allocated. \<open>empty_store\<close> is the store of a
  program that has not created a directory yet.
\<close>

record store =
  objs :: "addr \<Rightarrow> FakeDirectory"
  fresh :: addr

definition empty_store :: store where
  "empty_store =
     \<lparr>objs = (\<lambda>a. \<lparr>bookmarks = [], files = [], subdirectories = [], name = []\<rparr>),
      fresh = 0\<rparr>"

type_synonym 'a result = "(error + 'a) \<times> store"

text \<open>
  The constructor. An optional parameter that is left out is \<open>None\<close>; an array, empty
  or not, is truthy, so \<^verbatim>\<open>files ? files : []\<close> falls back to \<^verbatim>\<open>[]\<close> for \<open>None\<close> only.
  No argument is checked.
\<close>

definition new_FakeDirectory ::
  "store \<Rightarrow> string \<Rightarrow> FakeFile list option \<Rightarrow> string list option \<Rightarrow> addr list option
     \<Rightarrow> addr \<times> store" where
  "new_FakeDirectory s n fs bs ds =
     (let this = fresh s;
          obj = \<lparr>bookmarks = (case bs of Some b \<Rightarrow> b | None \<Rightarrow> []),
                 files = (case fs of Some f \<Rightarrow> f | None \<Rightarrow> []),
                 subdirectories = (case ds of Some d \<Rightarrow> d | None \<Rightarrow> []),
                 name = n\<rparr>
      in (this, s\<lparr>objs := (objs s)(this := obj), fresh := Suc this\<rparr>))"

text \<open>The two template strings of the error messages; \<open>CHR 0x27\<close> is the single quote.\<close>

definition file_exists_message :: "string \<Rightarrow> string" where
  "file_exists_message n =
     ''A file with the name '' @ [CHR 0x27] @ n @ [CHR 0x27] @ '' already exists.''"

definition directory_exists_message :: "string \<Rightarrow> string" where
  "directory_exists_message n =
     ''A directory with the name '' @ [CHR 0x27] @ n @ [CHR 0x27] @ '' already exists.''"

text \<open>\<^verbatim>\<open>this.files.push(file)\<close> and \<^verbatim>\<open>this.subdirectories.push(dir)\<close>.\<close>

definition push_file :: "store \<Rightarrow> addr \<Rightarrow> FakeFile \<Rightarrow> store" where
  "push_file s this file =
     s\<lparr>objs := (objs s)(this := (objs s this)\<lparr>files := files (objs s this) @ [file]\<rparr>)\<rparr>"

definition push_subdirectory :: "store \<Rightarrow> addr \<Rightarrow> addr \<Rightarrow> store" where
  "push_subdirectory s this dir =
     s\<lparr>objs := (objs s)(this := (objs s this)
          \<lparr>subdirectories := subdirectories (objs s this) @ [dir]\<rparr>)\<rparr>"

definition addFile :: "store \<Rightarrow> addr \<Rightarrow> FakeFile \<Rightarrow> unit result" where
  "addFile s this file =
     (let exists =
            length (filter (\<lambda>f. FakeFile.name f = FakeFile.name file
                               \<and> extension f = extension file)
                      (files (objs s this))) > 0
      in if exists then (Inl (Error (file_exists_message (FakeFile.name file))), s)
         else (Inr (), push_file s this file))"

fun addFiles :: "store \<Rightarrow> addr \<Rightarrow> FakeFile list \<Rightarrow> unit result" where
  "addFiles s this [] = (Inr (), s)"
| "addFiles s this (f # fs) =
     (case addFile s this f of
        (Inl e, s') \<Rightarrow> (Inl e, s')
      | (Inr u, s') \<Rightarrow> addFiles s' this fs)"

text \<open>\<^verbatim>\<open>Array.prototype.indexOf\<close>: the first index holding the element, or \<open>-1\<close>.\<close>

fun indexOf :: "'a list \<Rightarrow> 'a \<Rightarrow> int" where
  "indexOf [] x = - 1"
| "indexOf (y # ys) x =
     (if y = x then 0 else (let i = indexOf ys x in if i = - 1 then - 1 else i + 1))"

definition addSubdirectory :: "store \<Rightarrow> addr \<Rightarrow> addr \<Rightarrow> addr result" where
  "addSubdirectory s this dir =
     (let exists =
            length (filter (\<lambda>d. name (objs s d) = name (objs s dir))
                      (subdirectories (objs s this))) > 0
      in if exists then (Inl (Error (directory_exists_message (name (objs s dir)))), s)
         else
           (let s' = push_subdirectory s this dir;
                newDir = indexOf (subdirectories (objs s' this)) dir
            in if newDir = - 1 then (Inl (Error ''Failed to add subdirectory.''), s')
               else (Inr (subdirectories (objs s' this) ! nat newDir), s')))"


text \<open>\<^verbatim>\<open>forEach\<close> with \<^verbatim>\<open>push\<close> is a left fold that appends one name at a time.\<close>

definition listContents :: "store \<Rightarrow> addr \<Rightarrow> string list" where
  "listContents s this =
     (let contents = [];
          contents = foldl (\<lambda>c d. c @ [name (objs s d)]) contents
                       (subdirectories (objs s this));
          contents = foldl (\<lambda>c f. c @ [FakeFile.name f]) contents (files (objs s this))
      in contents)"

subsection \<open>FilesystemWrapper\<close>

record FilesystemWrapper =
  root :: addr

text \<open>
  \<^verbatim>\<open>String.prototype.split\<close> with a separator of one character, as ECMAScript defines
  it: the pieces between the occurrences of the separator, so one piece more than there
  are occurrences.
\<close>

fun split_on :: "char \<Rightarrow> string \<Rightarrow> string list" where
  "split_on c [] = [[]]"
| "split_on c (x # xs) =
     (if x = c then [] # split_on c xs
      else (case split_on c xs of [] \<Rightarrow> [[x]] | t # ts \<Rightarrow> (x # t) # ts))"

definition basicFilesystem :: "store \<Rightarrow> FilesystemWrapper result" where
  "basicFilesystem s =
     (let (ROOT_DIRECTORY, s1) = new_FakeDirectory s ''root'' None None None;
          (local, s2) = new_FakeDirectory s1 ''local'' None None None
      in case addSubdirectory s2 ROOT_DIRECTORY local of
           (Inl e, s3) \<Rightarrow> (Inl e, s3)
         | (Inr r, s3) \<Rightarrow>
             (let (iCloud, s4) = new_FakeDirectory s3 ''iCloud'' None None None
              in case addSubdirectory s4 ROOT_DIRECTORY iCloud of
                   (Inl e, s5) \<Rightarrow> (Inl e, s5)
                 | (Inr r', s5) \<Rightarrow> (Inr \<lparr>root = ROOT_DIRECTORY\<rparr>, s5)))"

text \<open>The \<^verbatim>\<open>for\<close> loop of \<^verbatim>\<open>directoriesFromPath\<close> over the tokens, in index order.\<close>

fun addTokens :: "store \<Rightarrow> addr \<Rightarrow> string list \<Rightarrow> unit result" where
  "addTokens s ROOT_DIRECTORY [] = (Inr (), s)"
| "addTokens s ROOT_DIRECTORY (t # ts) =
     (let (d, s1) = new_FakeDirectory s t None None None
      in case addSubdirectory s1 ROOT_DIRECTORY d of
           (Inl e, s2) \<Rightarrow> (Inl e, s2)
         | (Inr r, s2) \<Rightarrow> addTokens s2 ROOT_DIRECTORY ts)"

text \<open>The body of \<^verbatim>\<open>directoriesFromPath\<close> after the split, and the function itself.\<close>

definition directoriesFromTokens :: "store \<Rightarrow> string list \<Rightarrow> addr result" where
  "directoriesFromTokens s tokens =
     (if length tokens = 0 then (Inl (Error ''Invalid path.''), s)
      else
        (case basicFilesystem s of
           (Inl e, s1) \<Rightarrow> (Inl e, s1)
         | (Inr w, s1) \<Rightarrow>
             (let ROOT_DIRECTORY = root w
              in case addTokens s1 ROOT_DIRECTORY tokens of
                   (Inl e, s2) \<Rightarrow> (Inl e, s2)
                 | (Inr u, s2) \<Rightarrow> (Inr ROOT_DIRECTORY, s2))))"

definition directoriesFromPath :: "store \<Rightarrow> string \<Rightarrow> addr result" where
  "directoriesFromPath s path = directoriesFromTokens s (split_on (CHR ''/'') path)"

subsection \<open>The uniqueness predicates of the data model\<close>




section \<open>Properties of FakeFile\<close>

text \<open>
  C10: adding the same tag twice in succession leaves the tag collection, as \<^verbatim>\<open>allTags\<close>
  returns it, the one that a single call leaves; the second call changes nothing in the
  file, and \<^verbatim>\<open>addTag\<close> has no error result at all.
\<close>

theorem addTag_twice:
  "allTags (addTag (addTag f t) t) = allTags (addTag f t)
   \<and> addTag (addTag f t) t = addTag f t"
  by (simp add: addTag_def allTags_def)

text \<open>
  C1: a value written with \<^verbatim>\<open>writeExtendedAttribute\<close> is read back by
  \<^verbatim>\<open>readExtendedAttribute\<close>. The code does so for every value but the empty string: for
  the empty string it answers \<^verbatim>\<open>null\<close>, as for a key that was never written. The
  lemma is the round trip for the other values, the theorem the run at the empty string.
\<close>

lemma read_after_write_nonempty:
  "v \<noteq> [] \<Longrightarrow> readExtendedAttribute (writeExtendedAttribute f v k) k = Some v"
  by (simp add: readExtendedAttribute_def writeExtendedAttribute_def update_conv')

theorem read_after_write_empty_string:
  "readExtendedAttribute
     (writeExtendedAttribute (new_FakeFile ''a'' ''txt'') [] ''k'') ''k'' = None
   \<and> allExtendedAttributes
       (writeExtendedAttribute (new_FakeFile ''a'' ''txt'') [] ''k'') = [''k'']"
  by (simp add: readExtendedAttribute_def writeExtendedAttribute_def
      allExtendedAttributes_def new_FakeFile_def)

section \<open>Properties of FakeDirectory\<close>

subsection \<open>The membership test and \<^verbatim>\<open>indexOf\<close>\<close>

lemma exists_filter_conv: "(0 < length (filter P xs)) = (\<exists>x\<in>set xs. P x)"
  by (induction xs) auto

lemma indexOf_ge: "- 1 \<le> indexOf xs x"
  by (induction xs) (auto simp: Let_def)

lemma indexOf_absent: "(indexOf xs x = - 1) = (x \<notin> set xs)"
proof (induction xs)
  case Nil
  show ?case by simp
next
  case (Cons y ys)
  have "- 1 \<le> indexOf ys x" by (rule indexOf_ge)
  with Cons show ?case by (auto simp: Let_def)
qed

lemma indexOf_nth: "x \<in> set xs \<Longrightarrow> xs ! nat (indexOf xs x) = x"
proof (induction xs)
  case Nil
  then show ?case by simp
next
  case (Cons y ys)
  show ?case
  proof (cases "y = x")
    case True
    then show ?thesis by simp
  next
    case False
    with Cons.prems have mem: "x \<in> set ys" by simp
    then have found: "indexOf ys x \<noteq> - 1" by (simp add: indexOf_absent)
    moreover have "- 1 \<le> indexOf ys x" by (rule indexOf_ge)
    ultimately have "0 \<le> indexOf ys x" by arith
    then have "nat (indexOf ys x + 1) = Suc (nat (indexOf ys x))" by arith
    with False mem Cons.IH found show ?thesis
      by (simp add: Let_def)
  qed
qed

subsection \<open>What the pushes and the constructor change\<close>

lemma push_file_simps:
  "files (objs (push_file s this f) a) =
     (if a = this then files (objs s this) @ [f] else files (objs s a))"
  "subdirectories (objs (push_file s this f) a) = subdirectories (objs s a)"
  "name (objs (push_file s this f) a) = name (objs s a)"
  "fresh (push_file s this f) = fresh s"
  by (simp_all add: push_file_def)

lemma push_subdirectory_simps:
  "subdirectories (objs (push_subdirectory s this d) a) =
     (if a = this then subdirectories (objs s this) @ [d] else subdirectories (objs s a))"
  "files (objs (push_subdirectory s this d) a) = files (objs s a)"
  "name (objs (push_subdirectory s this d) a) = name (objs s a)"
  "fresh (push_subdirectory s this d) = fresh s"
  by (simp_all add: push_subdirectory_def)

lemma new_FakeDirectory_simps:
  "fst (new_FakeDirectory s n fs bs ds) = fresh s"
  "fresh (snd (new_FakeDirectory s n fs bs ds)) = Suc (fresh s)"
  "objs (snd (new_FakeDirectory s n fs bs ds)) a =
     (if a = fresh s
      then \<lparr>bookmarks = (case bs of Some b \<Rightarrow> b | None \<Rightarrow> []),
            files = (case fs of Some f \<Rightarrow> f | None \<Rightarrow> []),
            subdirectories = (case ds of Some d \<Rightarrow> d | None \<Rightarrow> []),
            name = n\<rparr>
      else objs s a)"
  by (simp_all add: new_FakeDirectory_def Let_def)

subsection \<open>The add operations in closed form\<close>

lemma addFile_conv:
  "addFile s this file =
     (if \<exists>f\<in>set (files (objs s this)).
           FakeFile.name f = FakeFile.name file \<and> extension f = extension file
      then (Inl (Error (file_exists_message (FakeFile.name file))), s)
      else (Inr (), push_file s this file))"
  by (simp add: addFile_def exists_filter_conv filter_empty_conv Let_def)

text \<open>
  The branch \<^verbatim>\<open>Failed to add subdirectory.\<close> is never taken: the directory has just been
  pushed, so \<^verbatim>\<open>indexOf\<close> finds it, and the element at the index it returns is the directory.
\<close>

lemma addSubdirectory_conv:
  "addSubdirectory s this dir =
     (if \<exists>d\<in>set (subdirectories (objs s this)). name (objs s d) = name (objs s dir)
      then (Inl (Error (directory_exists_message (name (objs s dir)))), s)
      else (Inr dir, push_subdirectory s this dir))"
proof -
  have a: "indexOf (xs @ [dir]) dir \<noteq> - 1" for xs
    by (simp add: indexOf_absent)
  have b: "(xs @ [dir]) ! nat (indexOf (xs @ [dir]) dir) = dir" for xs
    by (rule indexOf_nth) simp
  show ?thesis
    by (simp add: addSubdirectory_def push_subdirectory_simps exists_filter_conv
        filter_empty_conv Let_def a b)
qed

lemma addFiles_conv:
  "addFiles s this (f # fs) =
     (if \<exists>g\<in>set (files (objs s this)).
           FakeFile.name g = FakeFile.name f \<and> extension g = extension f
      then (Inl (Error (file_exists_message (FakeFile.name f))), s)
      else addFiles (push_file s this f) this fs)"
  by (auto simp: addFile_conv)


lemma addFiles_append:
  "addFiles s this (xs @ ys) =
     (case addFiles s this xs of
        (Inl e, s') \<Rightarrow> (Inl e, s')
      | (Inr u, s') \<Rightarrow> addFiles s' this ys)"
  by (induction xs arbitrary: s) (auto split: prod.splits sum.splits)

lemma addFiles_files:
  "addFiles s this fs = (Inr (), s') \<Longrightarrow> files (objs s' this) = files (objs s this) @ fs"
proof (induction fs arbitrary: s)
  case Nil
  then show ?case by simp
next
  case (Cons f fs)
  from Cons.prems obtain s1 where
    step: "addFile s this f = (Inr (), s1)" and rest: "addFiles s1 this fs = (Inr (), s')"
    by (auto split: prod.splits sum.splits)
  from step have "s1 = push_file s this f"
    by (simp add: addFile_conv split: if_splits)
  then have "files (objs s1 this) = files (objs s this) @ [f]"
    by (simp add: push_file_simps)
  with Cons.IH [OF rest] show ?case by simp
qed

lemma foldl_snoc_map: "foldl (\<lambda>c x. c @ [g x]) acc xs = acc @ map g xs"
  by (induction xs arbitrary: acc) simp_all

lemma listContents_conv:
  "listContents s this =
     map (\<lambda>d. name (objs s d)) (subdirectories (objs s this))
     @ map FakeFile.name (files (objs s this))"
  by (simp add: listContents_def foldl_snoc_map)

subsection \<open>Preservation of the uniqueness predicates\<close>











subsection \<open>The claims about containers\<close>

text \<open>
  C5: \<^verbatim>\<open>addSubdirectory(dir)\<close> fails with the duplicate-entry error, naming \<^verbatim>\<open>dir\<close>'s name
  and leaving the store as it was, when a direct subdirectory has the same name; otherwise
  it appends \<^verbatim>\<open>dir\<close> at the end of the subdirectory list, changes nothing else, and
  returns the stored child, which is the reference \<^verbatim>\<open>dir\<close> it was given.
\<close>

theorem addSubdirectory_result:
  "(if \<exists>d\<in>set (subdirectories (objs s this)). name (objs s d) = name (objs s dir)
    then addSubdirectory s this dir =
           (Inl (Error (directory_exists_message (name (objs s dir)))), s)
    else fst (addSubdirectory s this dir) = Inr dir
         \<and> subdirectories (objs (snd (addSubdirectory s this dir)) this)
             = subdirectories (objs s this) @ [dir]
         \<and> last (subdirectories (objs (snd (addSubdirectory s this dir)) this)) = dir
         \<and> snd (addSubdirectory s this dir) = push_subdirectory s this dir)"
  by (simp add: addSubdirectory_conv push_subdirectory_simps)

theorem addSubdirectory_result_witness:
  "fst (addSubdirectory
          (snd (new_FakeDirectory (snd (new_FakeDirectory empty_store ''root'' None None None))
                  ''a'' None None None)) 0 1) = Inr 1
   \<and> subdirectories
        (objs (snd (addSubdirectory
                 (snd (new_FakeDirectory
                         (snd (new_FakeDirectory empty_store ''root'' None None None))
                         ''a'' None None None)) 0 1)) 0) = [1]"
  using addSubdirectory_result
    [of "snd (new_FakeDirectory (snd (new_FakeDirectory empty_store ''root'' None None None))
                ''a'' None None None)" 0 1]
  by (simp add: new_FakeDirectory_simps push_subdirectory_simps empty_store_def)

text \<open>
  C4, as the code has it: after \<^verbatim>\<open>addFile(f1)\<close> has succeeded, \<^verbatim>\<open>addFile(f2)\<close> fails with
  the duplicate-entry error, whose message names \<^verbatim>\<open>f2.name\<close>, and leaves the store and so
  the file list unchanged, when \<^verbatim>\<open>f2\<close> has the name and the extension of \<^verbatim>\<open>f1\<close> or of a
  file that was in the container before; otherwise it appends \<^verbatim>\<open>f2\<close> at the end of the file
  list. The claim's second half fails for a container that already holds a file with the
  name and extension of \<^verbatim>\<open>f2\<close>: the counterexample is such a container.
\<close>

theorem addFile_second:
  assumes "addFile s this f1 = (Inr (), s1)"
  shows "files (objs s1 this) = files (objs s this) @ [f1]
         \<and> (if (FakeFile.name f1 = FakeFile.name f2 \<and> extension f1 = extension f2)
                \<or> (\<exists>f\<in>set (files (objs s this)).
                      FakeFile.name f = FakeFile.name f2 \<and> extension f = extension f2)
             then addFile s1 this f2
                    = (Inl (Error (file_exists_message (FakeFile.name f2))), s1)
             else fst (addFile s1 this f2) = Inr ()
                  \<and> files (objs (snd (addFile s1 this f2)) this)
                      = files (objs s1 this) @ [f2])"
proof -
  from assms have s1: "s1 = push_file s this f1"
    by (simp add: addFile_conv split: if_splits)
  show ?thesis
    unfolding s1 by (auto simp: addFile_conv push_file_simps)
qed

theorem addFile_second_witness:
  "addFile (snd (new_FakeDirectory empty_store ''d'' None None None)) 0
       (new_FakeFile ''note'' ''txt'')
     = (Inr (), push_file (snd (new_FakeDirectory empty_store ''d'' None None None)) 0
                  (new_FakeFile ''note'' ''txt''))
   \<and> fst (addFile (push_file (snd (new_FakeDirectory empty_store ''d'' None None None)) 0
                     (new_FakeFile ''note'' ''txt''))
             0 (new_FakeFile ''note'' ''txt''))
       = Inl (Error (file_exists_message ''note''))
   \<and> files (objs (snd (addFile
                (push_file (snd (new_FakeDirectory empty_store ''d'' None None None)) 0
                   (new_FakeFile ''note'' ''txt''))
                0 (new_FakeFile ''note'' ''md''))) 0)
       = [new_FakeFile ''note'' ''txt'', new_FakeFile ''note'' ''md'']"
proof -
  have ok: "addFile (snd (new_FakeDirectory empty_store ''d'' None None None)) 0
              (new_FakeFile ''note'' ''txt'')
            = (Inr (), push_file (snd (new_FakeDirectory empty_store ''d'' None None None)) 0
                         (new_FakeFile ''note'' ''txt''))"
    by (simp add: addFile_conv new_FakeDirectory_simps empty_store_def)
  from addFile_second [OF ok, of "new_FakeFile ''note'' ''txt''"]
    addFile_second [OF ok, of "new_FakeFile ''note'' ''md''"] ok
  show ?thesis
    by (simp add: new_FakeDirectory_simps new_FakeFile_def push_file_simps empty_store_def)
qed

theorem addFile_second_counterexample:
  "fst (addFile
          (snd (new_FakeDirectory empty_store ''d'' (Some [new_FakeFile ''a'' ''txt''])
                  None None))
          0 (new_FakeFile ''b'' ''txt'')) = Inr ()
   \<and> FakeFile.name (new_FakeFile ''b'' ''txt'') \<noteq> FakeFile.name (new_FakeFile ''a'' ''txt'')
   \<and> fst (addFile
            (snd (addFile
                    (snd (new_FakeDirectory empty_store ''d''
                            (Some [new_FakeFile ''a'' ''txt'']) None None))
                    0 (new_FakeFile ''b'' ''txt'')))
            0 (new_FakeFile ''a'' ''txt''))
       = Inl (Error (file_exists_message ''a''))
   \<and> files (objs (snd (addFile
                     (snd (addFile
                             (snd (new_FakeDirectory empty_store ''d''
                                     (Some [new_FakeFile ''a'' ''txt'']) None None))
                             0 (new_FakeFile ''b'' ''txt'')))
                     0 (new_FakeFile ''a'' ''txt''))) 0)
       = [new_FakeFile ''a'' ''txt'', new_FakeFile ''b'' ''txt'']"
  by (simp add: addFile_conv push_file_simps new_FakeDirectory_simps new_FakeFile_def
      empty_store_def)

text \<open>
  The files that \<^verbatim>\<open>addFiles\<close> accepts: when the pairs of name and extension of the files
  given are distinct and none is the pair of a file the directory holds, every file is
  pushed, one after the other, in the order given.
\<close>

lemma push_files_files:
  "files (objs (foldl (\<lambda>s f. push_file s this f) s fs) this) = files (objs s this) @ fs"
  by (induction fs arbitrary: s) (simp_all add: push_file_simps)

lemma addFiles_accepts:
  assumes "distinct (map (\<lambda>f. (FakeFile.name f, extension f)) fs)"
    and "set (map (\<lambda>f. (FakeFile.name f, extension f)) fs)
           \<inter> set (map (\<lambda>f. (FakeFile.name f, extension f)) (files (objs s this))) = {}"
  shows "addFiles s this fs = (Inr (), foldl (\<lambda>s f. push_file s this f) s fs)"
  using assms
proof (induction fs arbitrary: s)
  case Nil
  then show ?case by simp
next
  case (Cons f fs)
  have new: "\<not> (\<exists>g\<in>set (files (objs s this)).
      FakeFile.name g = FakeFile.name f \<and> extension g = extension f)"
  proof
    assume "\<exists>g\<in>set (files (objs s this)).
      FakeFile.name g = FakeFile.name f \<and> extension g = extension f"
    then obtain g where g: "g \<in> set (files (objs s this))"
      and eq: "(FakeFile.name g, extension g) = (FakeFile.name f, extension f)"
      by auto
    from g have "(FakeFile.name g, extension g)
        \<in> set (map (\<lambda>f. (FakeFile.name f, extension f)) (files (objs s this)))"
      by simp
    with eq Cons.prems(2) show False
      by auto
  qed
  from Cons.prems have d: "distinct (map (\<lambda>f. (FakeFile.name f, extension f)) fs)"
    and disj: "set (map (\<lambda>f. (FakeFile.name f, extension f)) fs)
           \<inter> set (map (\<lambda>f. (FakeFile.name f, extension f))
                (files (objs (push_file s this f) this))) = {}"
    by (auto simp: push_file_simps)
  from Cons.IH [OF d disj] new show ?case
    unfolding addFiles_conv by simp
qed

text \<open>
  C6: \<^verbatim>\<open>addFiles\<close> applies \<^verbatim>\<open>addFile\<close> to the files in the order given and stops at the
  first one that is rejected. Let the files \<open>pre\<close> have distinct pairs of name and
  extension, none of them the pair of a file the directory holds, and let \<open>bad\<close> have the
  pair of a file of the directory or of \<open>pre\<close>. Then the call on \<open>pre @ bad # rest\<close> fails
  with the duplicate-entry error that names \<open>bad\<close>, whatever \<open>rest\<close> is, and the store it
  leaves is the one in which every file of \<open>pre\<close> has been pushed: the file list is the old
  one followed by \<open>pre\<close>, nothing is rolled back. The call on \<open>pre\<close> alone succeeds with
  that same store.
\<close>

theorem addFiles_stops_at_first_failure:
  assumes "distinct (map (\<lambda>f. (FakeFile.name f, extension f)) pre)"
    and "set (map (\<lambda>f. (FakeFile.name f, extension f)) pre)
           \<inter> set (map (\<lambda>f. (FakeFile.name f, extension f)) (files (objs s this))) = {}"
    and "(FakeFile.name bad, extension bad)
           \<in> set (map (\<lambda>f. (FakeFile.name f, extension f)) (files (objs s this) @ pre))"
  shows "addFiles s this (pre @ bad # rest)
           = (Inl (Error (file_exists_message (FakeFile.name bad))),
              foldl (\<lambda>s f. push_file s this f) s pre)
         \<and> files (objs (snd (addFiles s this (pre @ bad # rest))) this)
             = files (objs s this) @ pre
         \<and> addFiles s this pre = (Inr (), foldl (\<lambda>s f. push_file s this f) s pre)"
proof -
  define s1 where "s1 = foldl (\<lambda>s f. push_file s this f) s pre"
  have pre: "addFiles s this pre = (Inr (), s1)"
    unfolding s1_def by (rule addFiles_accepts [OF assms(1,2)])
  have fs1: "files (objs s1 this) = files (objs s this) @ pre"
    unfolding s1_def by (rule push_files_files)
  from assms(3) have "\<exists>g\<in>set (files (objs s1 this)).
      FakeFile.name g = FakeFile.name bad \<and> extension g = extension bad"
    unfolding fs1 by auto
  then have "addFile s1 this bad = (Inl (Error (file_exists_message (FakeFile.name bad))), s1)"
    by (simp add: addFile_conv)
  with pre have "addFiles s this (pre @ bad # rest)
      = (Inl (Error (file_exists_message (FakeFile.name bad))), s1)"
    by (simp add: addFiles_append)
  with pre fs1 show ?thesis
    unfolding s1_def by simp
qed

theorem addFiles_stops_at_first_failure_witness:
  "fst (addFiles (snd (new_FakeDirectory empty_store ''d'' None None None)) 0
          [new_FakeFile ''a'' ''txt'', new_FakeFile ''b'' ''txt'', new_FakeFile ''c'' ''txt'',
           new_FakeFile ''a'' ''txt'', new_FakeFile ''e'' ''txt''])
     = Inl (Error (file_exists_message ''a''))
   \<and> files (objs (snd (addFiles (snd (new_FakeDirectory empty_store ''d'' None None None)) 0
          [new_FakeFile ''a'' ''txt'', new_FakeFile ''b'' ''txt'', new_FakeFile ''c'' ''txt'',
           new_FakeFile ''a'' ''txt'', new_FakeFile ''e'' ''txt''])) 0)
     = [new_FakeFile ''a'' ''txt'', new_FakeFile ''b'' ''txt'', new_FakeFile ''c'' ''txt'']"
proof -
  define s where "s = snd (new_FakeDirectory empty_store ''d'' None None None)"
  define pre where
    "pre = [new_FakeFile ''a'' ''txt'', new_FakeFile ''b'' ''txt'', new_FakeFile ''c'' ''txt'']"
  have old: "files (objs s 0) = []"
    by (simp add: s_def new_FakeDirectory_simps empty_store_def)
  have h1: "distinct (map (\<lambda>f. (FakeFile.name f, extension f)) pre)"
    by (simp add: pre_def new_FakeFile_def)
  have h2: "set (map (\<lambda>f. (FakeFile.name f, extension f)) pre)
              \<inter> set (map (\<lambda>f. (FakeFile.name f, extension f)) (files (objs s 0))) = {}"
    by (simp add: old)
  have h3: "(FakeFile.name (new_FakeFile ''a'' ''txt''), extension (new_FakeFile ''a'' ''txt''))
              \<in> set (map (\<lambda>f. (FakeFile.name f, extension f)) (files (objs s 0) @ pre))"
    by (simp add: old pre_def new_FakeFile_def)
  from addFiles_stops_at_first_failure [OF h1 h2 h3, of "[new_FakeFile ''e'' ''txt'']"] old
  show ?thesis
    unfolding s_def [symmetric] pre_def by (simp add: new_FakeFile_def push_file_simps del: addFiles.simps)
qed




section \<open>Properties of FilesystemWrapper\<close>

subsection \<open>The split and the two factories in closed form\<close>

lemma split_on_nonempty: "split_on c xs \<noteq> []"
  by (induction xs) (auto split: list.splits)

lemma basicFilesystem_conv:
  "basicFilesystem s =
     (Inr \<lparr>root = fresh s\<rparr>,
      \<lparr>objs = (objs s)
         (fresh s := \<lparr>bookmarks = [], files = [],
                      subdirectories = [Suc (fresh s), Suc (Suc (fresh s))],
                      name = ''root''\<rparr>,
          Suc (fresh s) := \<lparr>bookmarks = [], files = [], subdirectories = [],
                            name = ''local''\<rparr>,
          Suc (Suc (fresh s)) := \<lparr>bookmarks = [], files = [], subdirectories = [],
                                  name = ''iCloud''\<rparr>),
       fresh = Suc (Suc (Suc (fresh s)))\<rparr>)"
  by (simp add: basicFilesystem_def new_FakeDirectory_def addSubdirectory_conv
      push_subdirectory_def Let_def fun_upd_twist)

lemma addTokens_conv:
  "addTokens s r (t # ts) =
     (if \<exists>c\<in>set (subdirectories (objs (snd (new_FakeDirectory s t None None None)) r)).
           name (objs (snd (new_FakeDirectory s t None None None)) c) = t
      then (Inl (Error (directory_exists_message t)), snd (new_FakeDirectory s t None None None))
      else addTokens (push_subdirectory (snd (new_FakeDirectory s t None None None)) r (fresh s))
             r ts)"
  by (simp add: case_prod_unfold addSubdirectory_conv new_FakeDirectory_simps)

lemma addTokens_error:
  "fst (addTokens s r ts) = Inl e \<Longrightarrow> \<exists>t\<in>set ts. e = Error (directory_exists_message t)"
proof (induction ts arbitrary: s)
  case Nil
  then show ?case by simp
next
  case (Cons t ts)
  then show ?case
    unfolding addTokens_conv by (auto split: if_splits)
qed

text \<open>
  The loop, started in a store in which the root and its subdirectories are allocated:
  it succeeds exactly when the tokens are distinct and none is the name of a subdirectory
  the root already has, and then the names of the root's subdirectories are the old ones
  followed by the tokens.
\<close>

lemma addTokens_result:
  assumes "r < fresh s" and "\<forall>d\<in>set (subdirectories (objs s r)). d < fresh s"
  shows "if distinct ts
            \<and> set ts \<inter> set (map (\<lambda>d. name (objs s d)) (subdirectories (objs s r))) = {}
         then fst (addTokens s r ts) = Inr ()
              \<and> map (\<lambda>d. name (objs (snd (addTokens s r ts)) d))
                   (subdirectories (objs (snd (addTokens s r ts)) r))
                  = map (\<lambda>d. name (objs s d)) (subdirectories (objs s r)) @ ts
              \<and> files (objs (snd (addTokens s r ts)) r) = files (objs s r)
         else \<exists>t\<in>set ts. fst (addTokens s r ts) = Inl (Error (directory_exists_message t))"
  using assms
proof (induction ts arbitrary: s)
  case Nil
  then show ?case by simp
next
  case (Cons t ts)
  define s1 where "s1 = snd (new_FakeDirectory s t None None None)"
  define s2 where "s2 = push_subdirectory s1 r (fresh s)"
  define subs where "subs = subdirectories (objs s r)"
  define ns where "ns = map (\<lambda>d. name (objs s d)) subs"
  from Cons.prems have r: "r \<noteq> fresh s" and old: "\<forall>d\<in>set subs. d \<noteq> fresh s"
    by (auto simp: subs_def)
  have subs1: "subdirectories (objs s1 r) = subs"
    using r by (simp add: s1_def subs_def new_FakeDirectory_simps)
  have names1: "map (\<lambda>d. name (objs s1 d)) subs = ns"
    using old by (simp add: s1_def ns_def new_FakeDirectory_simps)
  have new1: "name (objs s1 (fresh s)) = t"
    by (simp add: s1_def new_FakeDirectory_simps)
  have ex: "(\<exists>c\<in>set (subdirectories (objs s1 r)). name (objs s1 c) = t) = (t \<in> set ns)"
    unfolding subs1 names1 [symmetric] by auto
  have step: "addTokens s r (t # ts) =
      (if t \<in> set ns then (Inl (Error (directory_exists_message t)), s1)
       else addTokens s2 r ts)"
    unfolding addTokens_conv s1_def [symmetric] s2_def [symmetric] ex by (rule refl)
  show ?case
  proof (cases "t \<in> set ns")
    case True
    then show ?thesis
      unfolding step by (auto simp: ns_def subs_def)
  next
    case False
    have fresh2: "fresh s2 = Suc (fresh s)"
      by (simp add: s2_def s1_def push_subdirectory_simps new_FakeDirectory_simps)
    have subs2: "subdirectories (objs s2 r) = subs @ [fresh s]"
      by (simp add: s2_def push_subdirectory_simps subs1)
    have names2: "map (\<lambda>d. name (objs s2 d)) (subdirectories (objs s2 r)) = ns @ [t]"
      unfolding subs2 by (simp add: s2_def push_subdirectory_simps names1 new1)
    have files2: "files (objs s2 r) = files (objs s r)"
      using r by (simp add: s2_def s1_def push_subdirectory_simps new_FakeDirectory_simps)
    have wf2: "r < fresh s2" "\<forall>d\<in>set (subdirectories (objs s2 r)). d < fresh s2"
      using Cons.prems unfolding fresh2 subs2 by (auto simp: subs_def)
    note IH = Cons.IH [OF wf2, unfolded names2 files2]
    have cond: "(distinct ts \<and> set ts \<inter> set (ns @ [t]) = {})
                  = (distinct (t # ts) \<and> set (t # ts) \<inter> set ns = {})"
      using False by auto
    show ?thesis
    proof (cases "distinct ts \<and> set ts \<inter> set (ns @ [t]) = {}")
      case True
      with IH have "fst (addTokens s2 r ts) = Inr ()
              \<and> map (\<lambda>d. name (objs (snd (addTokens s2 r ts)) d))
                   (subdirectories (objs (snd (addTokens s2 r ts)) r)) = (ns @ [t]) @ ts
              \<and> files (objs (snd (addTokens s2 r ts)) r) = files (objs s r)"
        by (simp only: if_True)
      moreover from True
      have "distinct (t # ts) \<and> set (t # ts) \<inter> set ns = {}" unfolding cond .
      ultimately show ?thesis
        unfolding step using False by (simp add: ns_def subs_def)
    next
      case no: False
      with IH have "\<exists>u\<in>set ts. fst (addTokens s2 r ts) = Inl (Error (directory_exists_message u))"
        by (simp only: if_False)
      moreover from no
      have "\<not> (distinct (t # ts) \<and> set (t # ts) \<inter> set ns = {})" unfolding cond .
      ultimately show ?thesis
        unfolding step using False by (auto simp: ns_def subs_def)
    qed
  qed
qed

lemma directoriesFromTokens_conv:
  "directoriesFromTokens s tokens =
     (if tokens = [] then (Inl (Error ''Invalid path.''), s)
      else (case addTokens (snd (basicFilesystem s)) (fresh s) tokens of
              (Inl e, s2) \<Rightarrow> (Inl e, s2)
            | (Inr u, s2) \<Rightarrow> (Inr (fresh s), s2)))"
  by (simp add: directoriesFromTokens_def basicFilesystem_conv Let_def)

lemma directoriesFromTokens_result:
  assumes "tokens \<noteq> []"
  shows "if distinct tokens \<and> ''local'' \<notin> set tokens \<and> ''iCloud'' \<notin> set tokens
         then fst (directoriesFromTokens s tokens) = Inr (fresh s)
              \<and> listContents (snd (directoriesFromTokens s tokens)) (fresh s)
                  = [''local'', ''iCloud''] @ tokens
         else \<exists>t\<in>set tokens.
                fst (directoriesFromTokens s tokens) = Inl (Error (directory_exists_message t))"
proof -
  define s1 where "s1 = snd (basicFilesystem s)"
  have wf: "fresh s < fresh s1" "\<forall>d\<in>set (subdirectories (objs s1 (fresh s))). d < fresh s1"
    by (simp_all add: s1_def basicFilesystem_conv)
  have names: "map (\<lambda>d. name (objs s1 d)) (subdirectories (objs s1 (fresh s)))
                 = [''local'', ''iCloud'']"
    by (simp add: s1_def basicFilesystem_conv)
  have nofiles: "files (objs s1 (fresh s)) = []"
    by (simp add: s1_def basicFilesystem_conv)
  note loop = addTokens_result [OF wf, of tokens, unfolded names nofiles]
  have conv: "directoriesFromTokens s tokens =
      (case addTokens s1 (fresh s) tokens of
         (Inl e, s2) \<Rightarrow> (Inl e, s2)
       | (Inr u, s2) \<Rightarrow> (Inr (fresh s), s2))"
    using assms by (simp add: directoriesFromTokens_conv s1_def)
  show ?thesis
  proof (cases "distinct tokens \<and> ''local'' \<notin> set tokens \<and> ''iCloud'' \<notin> set tokens")
    case True
    then have "distinct tokens \<and> set tokens \<inter> set [''local'', ''iCloud''] = {}"
      by auto
    with loop have ok: "fst (addTokens s1 (fresh s) tokens) = Inr ()"
      and res: "map (\<lambda>d. name (objs (snd (addTokens s1 (fresh s) tokens)) d))
                  (subdirectories (objs (snd (addTokens s1 (fresh s) tokens)) (fresh s)))
                = [''local'', ''iCloud''] @ tokens"
      and fs: "files (objs (snd (addTokens s1 (fresh s) tokens)) (fresh s)) = []"
      by (simp_all only: if_True)
    from ok have "directoriesFromTokens s tokens
                    = (Inr (fresh s), snd (addTokens s1 (fresh s) tokens))"
      unfolding conv by (cases "addTokens s1 (fresh s) tokens") auto
    with res fs True show ?thesis
      by (simp add: listContents_conv)
  next
    case False
    then have "\<not> (distinct tokens \<and> set tokens \<inter> set [''local'', ''iCloud''] = {})"
      by auto
    with loop obtain t where t: "t \<in> set tokens"
      and err: "fst (addTokens s1 (fresh s) tokens) = Inl (Error (directory_exists_message t))"
      by (auto simp only: if_False)
    from err have "fst (directoriesFromTokens s tokens)
                     = Inl (Error (directory_exists_message t))"
      unfolding conv by (cases "addTokens s1 (fresh s) tokens") auto
    with t False show ?thesis
      by (auto simp only: if_False)
  qed
qed

lemma directoriesFromTokens_invalid:
  "(fst (directoriesFromTokens s tokens) = Inl (Error ''Invalid path.'')) = (tokens = [])"
proof (cases "tokens = []")
  case True
  then show ?thesis by (simp add: directoriesFromTokens_conv)
next
  case False
  have "fst (directoriesFromTokens s tokens) \<noteq> Inl (Error ''Invalid path.'')"
  proof
    assume inv: "fst (directoriesFromTokens s tokens) = Inl (Error ''Invalid path.'')"
    with False
    have "fst (addTokens (snd (basicFilesystem s)) (fresh s) tokens)
            = Inl (Error ''Invalid path.'')"
      by (auto simp: directoriesFromTokens_conv split: prod.splits sum.splits)
    from addTokens_error [OF this] show False
      by (auto simp: directory_exists_message_def)
  qed
  with False show ?thesis by simp
qed

subsection \<open>The claims about the factories\<close>

text \<open>
  C7: in any store, \<^verbatim>\<open>basicFilesystem()\<close> returns a wrapper whose root is a new directory
  named \<^verbatim>\<open>root\<close> with exactly two subdirectories, named \<^verbatim>\<open>local\<close> and \<^verbatim>\<open>iCloud\<close> in this
  order, and no files, so that \<^verbatim>\<open>listContents\<close> of the root is \<^verbatim>\<open>["local", "iCloud"]\<close>; and
  \<^verbatim>\<open>listContents\<close> of any directory is the names of its subdirectories in stored order,
  followed by the names of its files.
\<close>

theorem basicFilesystem_root:
  "fst (basicFilesystem s) = Inr \<lparr>root = fresh s\<rparr>
   \<and> name (objs (snd (basicFilesystem s)) (fresh s)) = ''root''
   \<and> map (\<lambda>d. name (objs (snd (basicFilesystem s)) d))
        (subdirectories (objs (snd (basicFilesystem s)) (fresh s))) = [''local'', ''iCloud'']
   \<and> length (subdirectories (objs (snd (basicFilesystem s)) (fresh s))) = 2
   \<and> files (objs (snd (basicFilesystem s)) (fresh s)) = []
   \<and> listContents (snd (basicFilesystem s)) (fresh s) = [''local'', ''iCloud'']
   \<and> listContents s' this
       = map (\<lambda>d. name (objs s' d)) (subdirectories (objs s' this))
         @ map FakeFile.name (files (objs s' this))"
  by (simp add: basicFilesystem_conv listContents_conv)

text \<open>
  C3: in any store, \<^verbatim>\<open>directoriesFromPath("a/b/c")\<close> returns the root of a new basic
  filesystem to which one directory per token has been added: the root has five
  subdirectories, five different new objects, none of which has a subdirectory of its
  own, and \<^verbatim>\<open>listContents\<close> of the result is \<^verbatim>\<open>["local", "iCloud", "a", "b", "c"]\<close>.
\<close>

theorem directoriesFromPath_abc:
  "fst (directoriesFromPath s ''a/b/c'') = Inr (fresh s)
   \<and> listContents (snd (directoriesFromPath s ''a/b/c'')) (fresh s)
       = [''local'', ''iCloud'', ''a'', ''b'', ''c'']
   \<and> name (objs (snd (directoriesFromPath s ''a/b/c'')) (fresh s)) = ''root''
   \<and> subdirectories (objs (snd (directoriesFromPath s ''a/b/c'')) (fresh s))
       = [fresh s + 1, fresh s + 2, fresh s + 3, fresh s + 4, fresh s + 5]
   \<and> map (\<lambda>d. subdirectories (objs (snd (directoriesFromPath s ''a/b/c'')) d))
        (subdirectories (objs (snd (directoriesFromPath s ''a/b/c'')) (fresh s)))
       = [[], [], [], [], []]"
proof -
  have "split_on (CHR ''/'') ''a/b/c'' = [''a'', ''b'', ''c'']"
    by simp
  then show ?thesis
    by (simp add: directoriesFromPath_def directoriesFromTokens_def
        basicFilesystem_conv new_FakeDirectory_def addSubdirectory_conv
        push_subdirectory_def listContents_conv Let_def)
qed

text \<open>
  C8: the body of \<^verbatim>\<open>directoriesFromPath\<close> raises the invalid-path error exactly when it is
  given no token; the split of a string on \<^verbatim>\<open>/\<close> never gives an empty list of tokens; so
  \<^verbatim>\<open>directoriesFromPath\<close> raises the invalid-path error for no string.
\<close>

theorem directoriesFromPath_never_invalid:
  "(fst (directoriesFromTokens s tokens) = Inl (Error ''Invalid path.'')) = (tokens = [])
   \<and> split_on (CHR ''/'') path \<noteq> []
   \<and> fst (directoriesFromPath s path) \<noteq> Inl (Error ''Invalid path.'')"
  by (simp add: directoriesFromPath_def directoriesFromTokens_invalid split_on_nonempty)

text \<open>
  C9: when a token of the path is \<^verbatim>\<open>local\<close> or \<^verbatim>\<open>iCloud\<close>, or two tokens are equal,
  \<^verbatim>\<open>directoriesFromPath\<close> fails with the duplicate-entry error of \<^verbatim>\<open>addSubdirectory\<close>, naming
  one of the tokens; it neither returns a directory nor raises the invalid-path error.
\<close>

theorem directoriesFromPath_duplicate:
  assumes "''local'' \<in> set (split_on (CHR ''/'') path)
           \<or> ''iCloud'' \<in> set (split_on (CHR ''/'') path)
           \<or> \<not> distinct (split_on (CHR ''/'') path)"
  shows "(\<exists>t\<in>set (split_on (CHR ''/'') path).
            fst (directoriesFromPath s path) = Inl (Error (directory_exists_message t)))
         \<and> fst (directoriesFromPath s path) \<noteq> Inl (Error ''Invalid path.'')
         \<and> fst (directoriesFromPath s path) \<noteq> Inr r"
proof -
  have ne: "split_on (CHR ''/'') path \<noteq> []"
    by (rule split_on_nonempty)
  from assms have "\<not> (distinct (split_on (CHR ''/'') path)
                       \<and> ''local'' \<notin> set (split_on (CHR ''/'') path)
                       \<and> ''iCloud'' \<notin> set (split_on (CHR ''/'') path))"
    by blast
  with directoriesFromTokens_result [OF ne, of s]
  have dup: "\<exists>t\<in>set (split_on (CHR ''/'') path).
               fst (directoriesFromPath s path) = Inl (Error (directory_exists_message t))"
    unfolding directoriesFromPath_def by (simp only: if_False)
  then have "fst (directoriesFromPath s path) \<noteq> Inl (Error ''Invalid path.'')"
    and "fst (directoriesFromPath s path) \<noteq> Inr r"
    by (auto simp: directory_exists_message_def)
  with dup show ?thesis by simp
qed

theorem directoriesFromPath_duplicate_witness:
  "''local'' \<in> set (split_on (CHR ''/'') ''a/local'')
   \<and> fst (directoriesFromPath empty_store ''a/local'')
       = Inl (Error (directory_exists_message ''local''))
   \<and> \<not> distinct (split_on (CHR ''/'') ''x/x'')
   \<and> fst (directoriesFromPath empty_store ''x/x'')
       = Inl (Error (directory_exists_message ''x''))"
proof -
  have a: "split_on (CHR ''/'') ''a/local'' = [''a'', ''local'']"
    and x: "split_on (CHR ''/'') ''x/x'' = [''x'', ''x'']"
    by simp_all
  have h1: "''local'' \<in> set (split_on (CHR ''/'') ''a/local'')
           \<or> ''iCloud'' \<in> set (split_on (CHR ''/'') ''a/local'')
           \<or> \<not> distinct (split_on (CHR ''/'') ''a/local'')"
    unfolding a by simp
  have h2: "''local'' \<in> set (split_on (CHR ''/'') ''x/x'')
           \<or> ''iCloud'' \<in> set (split_on (CHR ''/'') ''x/x'')
           \<or> \<not> distinct (split_on (CHR ''/'') ''x/x'')"
    unfolding x by simp
  have v1: "fst (directoriesFromPath empty_store ''a/local'')
              = Inl (Error (directory_exists_message ''local''))"
    unfolding directoriesFromPath_def a
    by (simp add: directoriesFromTokens_def basicFilesystem_conv new_FakeDirectory_def
        addSubdirectory_conv push_subdirectory_def Let_def)
  have v2: "fst (directoriesFromPath empty_store ''x/x'')
              = Inl (Error (directory_exists_message ''x''))"
    unfolding directoriesFromPath_def x
    by (simp add: directoriesFromTokens_def basicFilesystem_conv new_FakeDirectory_def
        addSubdirectory_conv push_subdirectory_def Let_def)
  from directoriesFromPath_duplicate [OF h1, of empty_store 0]
    directoriesFromPath_duplicate [OF h2, of empty_store 0] v1 v2
  show ?thesis
    unfolding a x by simp
qed

end
